theory Spec2Isabelle
  imports Complex_Main "HOL-Library.Multiset"
begin

section \<open>Data model\<close>

text \<open>
  An article is the dictionary built by \<^verbatim>\<open>scrape_website_content\<close>: six string fields
  that every crawled record carries, plus two keys that are attached later and may be
  absent: \<^verbatim>\<open>states\<close> (set in phase 2 when a state is mentioned) and \<^verbatim>\<open>embedding\<close>
  (set by \<^verbatim>\<open>get_article_embedding\<close>). An absent key is \<open>None\<close>. The key \<^verbatim>\<open>type\<close> is the
  field \<open>atype\<close>. Floats are idealised as reals.
\<close>

record article =
  url :: string
  title :: string
  content :: string
  description :: string
  atype :: string
  thumbnail :: string
  states :: "string list option"
  embedding :: "real list option"

text \<open>Python truthiness of \<^verbatim>\<open>article.get(key)\<close> for a list-valued key: present and non-empty.\<close>

fun truthy :: "'a list option \<Rightarrow> bool" where
  "truthy None = False"
| "truthy (Some []) = False"
| "truthy (Some (x # xs)) = True"

datatype error = ValueError

section \<open>Strings and slices\<close>

text \<open>\<^verbatim>\<open>xs[:k]\<close> for a Python integer \<open>k\<close>: a negative bound counts from the end.\<close>

definition slice_to :: "int \<Rightarrow> 'a list \<Rightarrow> 'a list" where
  "slice_to k xs = (if 0 \<le> k then take (nat k) xs else take (length xs - nat (- k)) xs)"

text \<open>\<^verbatim>\<open>sub in s\<close> on strings.\<close>

fun starts_with :: "string \<Rightarrow> string \<Rightarrow> bool" where
  "starts_with s [] = True"
| "starts_with [] (p # ps) = False"
| "starts_with (c # cs) (p # ps) = (c = p \<and> starts_with cs ps)"

fun str_in :: "string \<Rightarrow> string \<Rightarrow> bool" where
  "str_in sub [] = (sub = [])"
| "str_in sub (c # cs) = (starts_with (c # cs) sub \<or> str_in sub cs)"

text \<open>\<^verbatim>\<open>' '.join(parts)\<close>.\<close>

fun join_space :: "string list \<Rightarrow> string" where
  "join_space [] = []"
| "join_space [p] = p"
| "join_space (p # q # ps) = p @ '' '' @ join_space (q # ps)"

text \<open>The ASCII characters that \<^verbatim>\<open>str.strip()\<close> removes.\<close>

definition is_space :: "char \<Rightarrow> bool" where
  "is_space c = (c \<in> set [CHR '' '', CHR 0x09, CHR 0x0A, CHR 0x0B, CHR 0x0C, CHR 0x0D,
                            CHR 0x1C, CHR 0x1D, CHR 0x1E, CHR 0x1F])"

text \<open>\<^verbatim>\<open>not text.strip()\<close>: nothing but whitespace.\<close>

definition blank :: "string \<Rightarrow> bool" where
  "blank s = list_all is_space s"

section \<open>Cosine similarity\<close>

text \<open>
  A numpy float64 result: a number, an infinity or NaN. numpy's true division does not
  raise on a zero divisor: \<open>0/0\<close> is NaN and \<open>x/0\<close> is a signed infinity. The divisor
  here is a product of norms, so a zero divisor is \<open>+0.0\<close>.
\<close>

datatype npfloat = Num real | PosInf | NegInf | NaN

definition np_divide :: "real \<Rightarrow> real \<Rightarrow> npfloat" where
  "np_divide x y =
     (if y \<noteq> 0 then Num (x / y)
      else if x = 0 then NaN
      else if 0 < x then PosInf else NegInf)"

text \<open>\<^verbatim>\<open>np.dot\<close> on two 1-D arrays raises ValueError when their lengths differ.\<close>

definition np_dot :: "real list \<Rightarrow> real list \<Rightarrow> error + real" where
  "np_dot a b =
     (if length a \<noteq> length b then Inl ValueError
      else Inr (sum_list (map2 (*) a b)))"

definition np_norm :: "real list \<Rightarrow> real" where
  "np_norm a = sqrt (sum_list (map (\<lambda>x. x * x) a))"

definition cosine_similarity :: "real list \<Rightarrow> real list \<Rightarrow> error + npfloat" where
  "cosine_similarity a b =
     (case np_dot a b of
        Inl e \<Rightarrow> Inl e
      | Inr d \<Rightarrow> Inr (np_divide d (np_norm a * np_norm b)))"

text \<open>The comparison \<^verbatim>\<open><\<close> of two floats: false whenever one side is NaN.\<close>

fun float_lt :: "npfloat \<Rightarrow> npfloat \<Rightarrow> bool" where
  "float_lt (Num x) (Num y) = (x < y)"
| "float_lt (Num x) PosInf = True"
| "float_lt (Num x) NegInf = False"
| "float_lt PosInf b = False"
| "float_lt NegInf (Num y) = True"
| "float_lt NegInf PosInf = True"
| "float_lt NegInf NegInf = False"
| "float_lt a NaN = False"
| "float_lt NaN b = False"

section \<open>Embeddings of articles\<close>

text \<open>
  The embedding capability is opaque. One call is a function from the text to the vector
  it returns, \<open>None\<close> when the call raises. A ranking call makes at most one embedding
  call for the query and one per article, so a client is a family of such calls:
  \<open>client 0\<close> answers the query, \<open>client (Suc i)\<close> the article at position \<open>i\<close>.
\<close>

type_synonym embed_call = "string \<Rightarrow> real list option"

definition embedding_text :: "article \<Rightarrow> string" where
  "embedding_text a =
     join_space ((if title a \<noteq> [] then [title a] else [])
               @ (if description a \<noteq> [] then [description a] else [])
               @ (if content a \<noteq> [] then [take 500 (content a)] else []))"

text \<open>
  \<^verbatim>\<open>get_article_embedding(article, client, save_to_cache)\<close>: the returned vector and the
  article as the call leaves it (the dictionary is mutated in place).
\<close>

definition get_article_embedding ::
    "article \<Rightarrow> embed_call \<Rightarrow> bool \<Rightarrow> real list option \<times> article" where
  "get_article_embedding a call save_to_cache =
     (if truthy (embedding a) then (embedding a, a)
      else if blank (embedding_text a) then (None, a)
      else (case call (embedding_text a) of
              None \<Rightarrow> (None, a)
            | Some e \<Rightarrow> (Some e, if save_to_cache then a\<lparr>embedding := Some e\<rparr> else a)))"

section \<open>Ranking\<close>

text \<open>
  \<^verbatim>\<open>article_scores.sort(key=lambda x: x[0], reverse=True)\<close>. Python's sort is stable,
  also under \<^verbatim>\<open>reverse=True\<close>, and compares keys with \<^verbatim>\<open><\<close> only: the result is in
  descending key order and entries with equal keys keep their order. On keys that
  \<^verbatim>\<open><\<close> orders totally (no NaN) that result is unique, and it is the one this insertion
  sort computes. With a NaN among the keys the two may differ. The one list with a NaN
  key that is sorted below has the keys \<open>-1\<close>, NaN, \<open>1\<close>: every comparison with NaN
  is false, Python finds no pair out of order, and both leave the list as it is.
\<close>

fun insort_desc :: "npfloat \<times> 'a \<Rightarrow> (npfloat \<times> 'a) list \<Rightarrow> (npfloat \<times> 'a) list" where
  "insort_desc x [] = [x]"
| "insort_desc x (y # ys) =
     (if float_lt (fst x) (fst y) then y # insort_desc x ys else x # y # ys)"

definition sort_reverse :: "(npfloat \<times> 'a) list \<Rightarrow> (npfloat \<times> 'a) list" where
  "sort_reverse xs = foldr insort_desc xs []"

text \<open>
  The loop of \<^verbatim>\<open>find_similar_articles\<close> over the articles, from position \<open>i\<close> on. It
  yields \<open>article_scores\<close>, the articles as the loop leaves them, and the counter
  \<open>embeddings_generated\<close>; a ValueError of \<^verbatim>\<open>cosine_similarity\<close> ends it. The counter's
  test reads the article after \<^verbatim>\<open>get_article_embedding\<close> has stored the vector in it.
\<close>

fun score_loop ::
    "real list \<Rightarrow> (nat \<Rightarrow> embed_call) \<Rightarrow> nat \<Rightarrow> article list
       \<Rightarrow> error + ((npfloat \<times> article) list \<times> article list \<times> nat)" where
  "score_loop q client i [] = Inr ([], [], 0)"
| "score_loop q client i (a # as) =
     (case get_article_embedding a (client (Suc i)) True of
        (Some (v # vs), a') \<Rightarrow>
          (case cosine_similarity q (v # vs) of
             Inl e \<Rightarrow> Inl e
           | Inr similarity \<Rightarrow>
               (case score_loop q client (Suc i) as of
                  Inl e \<Rightarrow> Inl e
                | Inr (article_scores, as', embeddings_generated) \<Rightarrow>
                    Inr ((similarity, a') # article_scores, a' # as',
                         (if \<not> truthy (embedding a') then 1 else 0) + embeddings_generated)))
      | (_, a') \<Rightarrow>
          (case score_loop q client (Suc i) as of
             Inl e \<Rightarrow> Inl e
           | Inr (article_scores, as', embeddings_generated) \<Rightarrow>
               Inr ((Num 0, a') # article_scores, a' # as', embeddings_generated)))"

text \<open>
  What a ranking call leaves behind: the list it returns, the caller's article list after
  the in-place updates, and the list handed to \<^verbatim>\<open>json.dump\<close> for the corpus snapshot
  file, \<open>None\<close> when the call does not open the file.
\<close>

record rank_outcome =
  returned :: "article list"
  corpus :: "article list"
  written :: "article list option"

definition find_similar_articles ::
    "string \<Rightarrow> article list \<Rightarrow> (nat \<Rightarrow> embed_call) \<Rightarrow> int \<Rightarrow> error + rank_outcome" where
  "find_similar_articles query articles client top_k =
     (case client 0 query of
        None \<Rightarrow> Inr \<lparr>returned = slice_to top_k articles, corpus = articles, written = None\<rparr>
      | Some query_embedding \<Rightarrow>
          (case score_loop query_embedding client 0 articles of
             Inl e \<Rightarrow> Inl e
           | Inr (article_scores, articles', embeddings_generated) \<Rightarrow>
               Inr \<lparr>returned = map snd (slice_to top_k (sort_reverse article_scores)),
                    corpus = articles',
                    written = (if embeddings_generated > 0 then Some articles' else None)\<rparr>))"

text \<open>
  The vector \<^verbatim>\<open>get_article_embedding\<close> yields for the article at position \<open>j\<close>, the score
  the loop gives that article, and the article as the loop leaves it.
\<close>

definition article_vector :: "(nat \<Rightarrow> embed_call) \<Rightarrow> article list \<Rightarrow> nat \<Rightarrow> real list option" where
  "article_vector client articles j =
     fst (get_article_embedding (articles ! j) (client (Suc j)) True)"

definition article_after :: "(nat \<Rightarrow> embed_call) \<Rightarrow> article list \<Rightarrow> nat \<Rightarrow> article" where
  "article_after client articles j =
     snd (get_article_embedding (articles ! j) (client (Suc j)) True)"

definition vector_score :: "real list \<Rightarrow> real list option \<Rightarrow> error + npfloat" where
  "vector_score q emb =
     (case emb of
        Some (v # vs) \<Rightarrow> cosine_similarity q (v # vs)
      | _ \<Rightarrow> Inr (Num 0))"

definition article_score ::
    "real list \<Rightarrow> (nat \<Rightarrow> embed_call) \<Rightarrow> article list \<Rightarrow> nat \<Rightarrow> error + npfloat" where
  "article_score q client articles j = vector_score q (article_vector client articles j)"

text \<open>
  A score list \<open>ss\<close> is the list of the articles' scores when every score is computed
  without an error; it is comparable when it holds no NaN.
\<close>

definition scores_of ::
    "real list \<Rightarrow> (nat \<Rightarrow> embed_call) \<Rightarrow> article list \<Rightarrow> npfloat list \<Rightarrow> bool" where
  "scores_of q client articles ss =
     (map (article_score q client articles) [0..<length articles] = map Inr ss)"

definition comparable :: "npfloat list \<Rightarrow> bool" where
  "comparable ss = list_all (\<lambda>s. s \<noteq> NaN) ss"

text \<open>
  Position \<open>i\<close> ranks before position \<open>j\<close>: its score is higher, or the scores are equal
  and \<open>i\<close> comes first in the input.
\<close>

definition ranks_before :: "npfloat list \<Rightarrow> nat \<Rightarrow> nat \<Rightarrow> bool" where
  "ranks_before ss i j = (float_lt (ss ! j) (ss ! i) \<or> (ss ! i = ss ! j \<and> i < j))"

text \<open>
  The same order on entries that pair a score with a position, and the order in which
  the sort puts the positions of a score list.
\<close>

definition entry_before :: "npfloat \<times> nat \<Rightarrow> npfloat \<times> nat \<Rightarrow> bool" where
  "entry_before x y = (float_lt (fst y) (fst x) \<or> (fst x = fst y \<and> snd x < snd y))"

definition rank_order :: "npfloat list \<Rightarrow> nat list" where
  "rank_order ss = map snd (sort_reverse (zip ss [0..<length ss]))"

section \<open>Discovery of links\<close>

definition WEBSITE_URL :: string where
  "WEBSITE_URL = ''https://ridewithvia.com''"

text \<open>
  An anchor of the fetched page, as the loop reads it: \<^verbatim>\<open>link.get('href')\<close>,
  \<^verbatim>\<open>link.get_text(strip=True)\<close>, \<^verbatim>\<open>link.get('title', '')\<close> and \<^verbatim>\<open>link.get('aria-label', '')\<close>.
\<close>

record anchor =
  link_href :: string
  link_text :: string
  link_title :: string
  link_aria_label :: string

text \<open>The three collections of phase 1.\<close>

record crawl_state =
  urls_to_visit :: "string list"
  seen_urls :: "string set"
  articles_found :: "article list"

text \<open>\<^verbatim>\<open>full_url.split('/')[-1]\<close>.\<close>

definition last_segment :: "string \<Rightarrow> string" where
  "last_segment s = rev (takeWhile (\<lambda>c. c \<noteq> CHR ''/'') (rev s))"

text \<open>The \<^verbatim>\<open>if\<close>/\<^verbatim>\<open>elif\<close> chain that sets \<^verbatim>\<open>article_type\<close> from \<^verbatim>\<open>full_url\<close>.\<close>

definition article_type :: "string \<Rightarrow> string" where
  "article_type full_url =
     (if str_in ''/blog/'' full_url then ''blog''
      else if str_in ''/resources/'' full_url then ''resource''
      else if str_in ''/case-studies/'' full_url then ''case-study''
      else if str_in ''/solutions/'' full_url then ''solution''
      else if str_in ''/audience/'' full_url then ''audience''
      else ''page'')"

text \<open>
  The body of the loop over \<^verbatim>\<open>soup.find_all('a', href=True)\<close> for one anchor, in its
  four parts. \<open>urljoin\<close> is the library function, \<open>page_title\<close> the stripped text of
  the page's \<^verbatim>\<open><title>\<close> element when it has one.
\<close>

text \<open>"Normalize URL": \<open>None\<close> is the \<^verbatim>\<open>continue\<close> of the last branch.\<close>

definition normalize_href :: "(string \<Rightarrow> string \<Rightarrow> string) \<Rightarrow> string \<Rightarrow> string option" where
  "normalize_href urljoin href =
     (if starts_with href ''/'' then Some (urljoin WEBSITE_URL href)
      else if starts_with href ''http'' \<and> str_in ''ridewithvia.com'' href then Some href
      else None)"

text \<open>"Filter to relevant content pages".\<close>

definition content_path :: "string \<Rightarrow> bool" where
  "content_path full_url =
     list_ex (\<lambda>path. str_in path full_url)
       [''/blog/'', ''/resources/'', ''/solutions/'', ''/audience/'', ''/case-studies/'',
        ''/about/'']"

text \<open>"Extract title".\<close>

definition extract_title :: "string option \<Rightarrow> string \<Rightarrow> anchor \<Rightarrow> string" where
  "extract_title page_title full_url link =
     (let title = (if link_text link \<noteq> [] then link_text link
                   else if link_title link \<noteq> [] then link_title link
                   else link_aria_label link)
      in if title = [] \<or> length title < 5
         then (case page_title of
                 Some t \<Rightarrow> t
               | None \<Rightarrow> last_segment full_url)
         else title)"

text \<open>The dictionary appended to \<^verbatim>\<open>articles\<close>.\<close>

definition new_article :: "string \<Rightarrow> string \<Rightarrow> article" where
  "new_article full_url title_text =
     \<lparr>url = full_url, title = title_text, content = [], description = [],
      atype = article_type full_url, thumbnail = [], states = None, embedding = None\<rparr>"

definition process_link ::
    "(string \<Rightarrow> string \<Rightarrow> string) \<Rightarrow> string option \<Rightarrow> crawl_state \<Rightarrow> anchor \<Rightarrow> crawl_state" where
  "process_link urljoin page_title st link =
     (if link_href link = [] then st
      else
        (case normalize_href urljoin (link_href link) of
           None \<Rightarrow> st
         | Some full_url \<Rightarrow>
             if str_in ''ridewithvia.com'' full_url \<and> full_url \<notin> seen_urls st then
               if content_path full_url then
                 (let st1 = st\<lparr>urls_to_visit := urls_to_visit st @ [full_url],
                                seen_urls := insert full_url (seen_urls st)\<rparr>;
                      title_text = extract_title page_title full_url link
                  in if title_text \<noteq> [] \<and> length title_text > 5 \<and> length title_text < 300
                     then st1\<lparr>articles_found :=
                            articles_found st1 @ [new_article full_url title_text]\<rparr>
                     else st1)
               else st
             else st))"

text \<open>
  The network location of an absolute URL, as \<^verbatim>\<open>urlparse(url).netloc\<close> gives it: what
  stands between \<^verbatim>\<open>://\<close> and the next \<^verbatim>\<open>/\<close>, \<^verbatim>\<open>?\<close> or \<^verbatim>\<open>#\<close>. The crawler never calls
  it; it names the authority that the link filter is meant to compare.
\<close>

fun after_scheme :: "string \<Rightarrow> string" where
  "after_scheme [] = []"
| "after_scheme (c # cs) = (if starts_with (c # cs) ''://'' then drop 3 (c # cs) else after_scheme cs)"

definition netloc :: "string \<Rightarrow> string" where
  "netloc u = takeWhile (\<lambda>c. c \<noteq> CHR ''/'' \<and> c \<noteq> CHR ''?'' \<and> c \<noteq> CHR ''#'') (after_scheme u)"

section \<open>Geographic filter\<close>

definition STATE_COORDINATES :: "(string \<times> real \<times> real) list" where
  "STATE_COORDINATES =
     [
      (''AL'', 32.806671, - 86.791130), (''AK'', 61.370716, - 152.404419), (''AZ'', 33.729759, - 111.431221),
      (''AR'', 34.969704, - 92.373123), (''CA'', 36.116203, - 119.681564), (''CO'', 39.059811, - 105.311104),
      (''CT'', 41.597782, - 72.755371), (''DE'', 39.318523, - 75.507141), (''FL'', 27.766279, - 81.686783),
      (''GA'', 33.040619, - 83.643074), (''HI'', 21.094318, - 157.498337), (''ID'', 44.240459, - 114.478828),
      (''IL'', 40.349457, - 88.986137), (''IN'', 39.849426, - 86.258278), (''IA'', 42.011539, - 93.210526),
      (''KS'', 38.526600, - 96.726486), (''KY'', 37.668140, - 84.670067), (''LA'', 31.169546, - 91.867805),
      (''ME'', 44.323535, - 69.765261), (''MD'', 39.063946, - 76.802101), (''MA'', 42.230171, - 71.530106),
      (''MI'', 43.326618, - 84.536095), (''MN'', 45.694454, - 93.900192), (''MS'', 32.741646, - 89.678696),
      (''MO'', 38.572954, - 92.189283), (''MT'', 46.921925, - 110.454353), (''NE'', 41.125370, - 98.268082),
      (''NV'', 38.313515, - 117.055374), (''NH'', 43.452492, - 71.563896), (''NJ'', 40.298904, - 74.521011),
      (''NM'', 34.840515, - 106.248482), (''NY'', 42.165726, - 74.948051), (''NC'', 35.630066, - 79.806419),
      (''ND'', 47.528912, - 99.784012), (''OH'', 40.388783, - 82.764915), (''OK'', 35.565342, - 96.928917),
      (''OR'', 44.572021, - 122.070938), (''PA'', 40.590752, - 77.209755), (''RI'', 41.680893, - 71.51178),
      (''SC'', 33.856892, - 80.945007), (''SD'', 44.299782, - 99.438828), (''TN'', 35.747845, - 86.692345),
      (''TX'', 31.054487, - 97.563461), (''UT'', 40.150032, - 111.892622), (''VT'', 44.045876, - 72.710686),
      (''VA'', 37.769337, - 78.169968), (''WA'', 47.400902, - 121.490494), (''WV'', 38.491226, - 80.954453),
      (''WI'', 44.268543, - 89.616508), (''WY'', 42.755966, - 107.302490), (''DC'', 38.907192, - 77.036873)
     ]"

definition radians :: "real \<Rightarrow> real" where
  "radians x = x * pi / 180"

text \<open>\<^verbatim>\<open>math.atan2(y, x)\<close>.\<close>

definition atan2 :: "real \<Rightarrow> real \<Rightarrow> real" where
  "atan2 y x =
     (if 0 < x then arctan (y / x)
      else if x < 0 \<and> 0 \<le> y then arctan (y / x) + pi
      else if x < 0 then arctan (y / x) - pi
      else if 0 < y then pi / 2
      else if y < 0 then - (pi / 2)
      else 0)"

definition calculate_distance :: "real \<Rightarrow> real \<Rightarrow> real \<Rightarrow> real \<Rightarrow> real" where
  "calculate_distance lat1 lon1 lat2 lon2 =
     (let R = 3959;
          rlat1 = radians lat1; rlon1 = radians lon1;
          rlat2 = radians lat2; rlon2 = radians lon2;
          dlat = rlat2 - rlat1;
          dlon = rlon2 - rlon1;
          a = (sin (dlat / 2))\<^sup>2 + cos rlat1 * cos rlat2 * (sin (dlon / 2))\<^sup>2;
          c = 2 * atan2 (sqrt a) (sqrt (1 - a))
      in R * c)"

text \<open>
  \<^verbatim>\<open>random.shuffle(x)\<close>: for \<open>i\<close> from \<open>len(x) - 1\<close> down to \<open>1\<close>, swap \<open>x[i]\<close> with
  \<open>x[j]\<close> for a random \<open>j\<close> in \<open>0..i\<close>. The random source is a parameter: \<open>draw i\<close> is
  the number drawn at step \<open>i\<close>, reduced into the range.
\<close>

fun shuffle_steps :: "(nat \<Rightarrow> nat) \<Rightarrow> nat \<Rightarrow> 'a list \<Rightarrow> 'a list" where
  "shuffle_steps draw 0 x = x"
| "shuffle_steps draw (Suc n) x =
     (let i = Suc n; j = draw i mod (i + 1)
      in shuffle_steps draw n (x[i := x ! j, j := x ! i]))"

definition shuffle :: "(nat \<Rightarrow> nat) \<Rightarrow> 'a list \<Rightarrow> 'a list" where
  "shuffle draw x = shuffle_steps draw (length x - 1) x"

text \<open>\<^verbatim>\<open>'states' in article and article.get('states')\<close>.\<close>

definition has_states :: "article \<Rightarrow> bool" where
  "has_states a = truthy (states a)"

text \<open>
  The inner loop over \<^verbatim>\<open>article['states']\<close>: the article is kept when one of its states
  has coordinates within \<open>max_distance\<close> miles of the user's.
\<close>

definition location_match :: "real \<Rightarrow> real \<Rightarrow> int \<Rightarrow> article \<Rightarrow> bool" where
  "location_match user_lat user_lon max_distance a =
     (case states a of
        None \<Rightarrow> False
      | Some sts \<Rightarrow>
          list_ex (\<lambda>state.
            case map_of STATE_COORDINATES state of
              None \<Rightarrow> False
            | Some (state_lat, state_lon) \<Rightarrow>
                calculate_distance user_lat user_lon state_lat state_lon
                  \<le> real_of_int max_distance) sts)"

definition get_articles_by_location ::
    "(nat \<Rightarrow> nat) \<Rightarrow> article list \<Rightarrow> string \<Rightarrow> int \<Rightarrow> article list" where
  "get_articles_by_location draw articles user_state max_distance =
     (case map_of STATE_COORDINATES user_state of
        None \<Rightarrow> articles
      | Some (user_lat, user_lon) \<Rightarrow>
          (let articles_with_states = filter has_states articles;
               articles_without_states = filter (\<lambda>a. \<not> has_states a) articles;
               filtered = filter (location_match user_lat user_lon max_distance)
                            articles_with_states
           in if length filtered \<ge> 4 then filtered
              else if length filtered > 0
                then filtered @ take (4 - length filtered) articles_without_states
              else (let shuffled = shuffle draw articles_without_states
                    in if shuffled \<noteq> [] then take 10 shuffled else [])))"

section \<open>Recommendations\<close>

text \<open>\<^verbatim>\<open>str.lower()\<close> and \<^verbatim>\<open>str.isdigit()\<close> on ASCII, \<^verbatim>\<open>str.strip()\<close>.\<close>

definition lower_char :: "char \<Rightarrow> char" where
  "lower_char c =
     (let n = (of_char c :: nat) in if 65 \<le> n \<and> n \<le> 90 then char_of (n + 32) else c)"

definition lower :: "string \<Rightarrow> string" where
  "lower s = map lower_char s"

definition is_digit :: "char \<Rightarrow> bool" where
  "is_digit c = (let n = (of_char c :: nat) in 48 \<le> n \<and> n \<le> 57)"

definition strip :: "string \<Rightarrow> string" where
  "strip s = rev (dropWhile is_space (rev (dropWhile is_space s)))"

text \<open>\<^verbatim>\<open>re.findall(r'\d+', s)\<close>: the maximal runs of digits, left to right.\<close>

fun digit_runs :: "string \<Rightarrow> string \<Rightarrow> string list" where
  "digit_runs cur [] = (if cur = [] then [] else [cur])"
| "digit_runs cur (c # cs) =
     (if is_digit c then digit_runs (cur @ [c]) cs
      else (if cur = [] then [] else [cur]) @ digit_runs [] cs)"

text \<open>\<^verbatim>\<open>int(x)\<close> on a run of digits.\<close>

definition int_of_digits :: "string \<Rightarrow> int" where
  "int_of_digits x = foldl (\<lambda>n c. 10 * n + (int (of_char c) - 48)) 0 x"

text \<open>
  The choice both selections make from the reply of the completion capability: up to
  \<open>n\<close> numbers are read from the reply and the candidates at those positions are taken;
  when no number is in range the first \<open>n\<close> candidates are.
\<close>

definition select_by_reply :: "nat \<Rightarrow> string \<Rightarrow> 'a list \<Rightarrow> 'a list" where
  "select_by_reply n reply candidates =
     (let numbers = digit_runs [] (strip reply);
          selected_indices =
            map (\<lambda>x. int_of_digits x - 1)
              (filter (\<lambda>x. list_all is_digit x \<and> 0 \<le> int_of_digits x - 1
                          \<and> int_of_digits x - 1 < int (length candidates))
                 (take n numbers))
      in if selected_indices \<noteq> []
         then map (\<lambda>i. candidates ! nat i) (take n selected_indices)
         else take n candidates)"

definition mentions :: "string list \<Rightarrow> article \<Rightarrow> bool" where
  "mentions keywords a =
     list_ex (\<lambda>keyword. str_in keyword (lower (content a))
                      \<or> str_in keyword (lower (title a))
                      \<or> str_in keyword (lower (description a))) keywords"

definition is_case_study :: "article \<Rightarrow> bool" where
  "is_case_study a =
     (str_in ''case-study'' (lower (atype a))
      \<or> str_in ''case study'' (lower (title a))
      \<or> str_in ''case study'' (take 500 (lower (content a)))
      \<or> str_in ''/case-studies/'' (lower (url a))
      \<or> str_in ''-case-study'' (lower (url a))
      \<or> str_in ''case-study'' (lower (url a))
      \<or> (str_in ''success story'' (lower (title a))
          \<or> str_in ''success story'' (take 500 (lower (content a)))))"

text \<open>
  The dictionary \<^verbatim>\<open>recommend_articles\<close> returns; \<^verbatim>\<open>None\<close> under \<^verbatim>\<open>'case_studies'\<close> is
  \<open>None\<close>, a list is \<open>Some\<close> of it.
\<close>

record recommendation =
  general :: "article list"
  case_studies :: "article list option"

text \<open>
  The completion capability is opaque: \<open>chat 0\<close> is the text of the reply to the
  selection of general articles and \<open>chat 1\<close> to that of case studies, \<open>None\<close> when the
  call or the reading of its reply raises. \<open>draw\<close> is the random source of the
  geographic filter.
\<close>

definition recommend_articles ::
    "article list \<Rightarrow> string \<Rightarrow> string \<Rightarrow> (nat \<Rightarrow> string option) \<Rightarrow> (nat \<Rightarrow> nat)
       \<Rightarrow> recommendation" where
  "recommend_articles articles user_type user_state chat draw =
     (if articles = [] then \<lparr>general = [], case_studies = Some []\<rparr>
      else
        (let relevant_articles =
               (if user_type = ''city''
                then filter (mentions [''microtransit'', ''paratransit'', ''city'',
                                       ''municipal'', ''urban'']) articles
                else if user_type = ''transit_agency''
                then filter (mentions [''paratransit'', ''transit'', ''agency'',
                                       ''public transportation'']) articles
                else articles);
             case_study_articles = filter is_case_study relevant_articles;
             general_articles =
               filter (\<lambda>a. a \<notin> set case_study_articles) relevant_articles;
             selected_general =
               (if length general_articles \<le> 3 then general_articles
                else (case chat 0 of
                        None \<Rightarrow> take 3 general_articles
                      | Some reply \<Rightarrow> select_by_reply 3 reply general_articles));
             selected_case_studies =
               (if case_study_articles \<noteq> [] then
                  (let location_case_studies =
                         get_articles_by_location draw case_study_articles user_state 500
                   in if location_case_studies \<noteq> [] then
                        (if length location_case_studies \<le> 4 then Some location_case_studies
                         else (case chat 1 of
                                 None \<Rightarrow> Some (take 4 location_case_studies)
                               | Some reply \<Rightarrow>
                                   Some (select_by_reply 4 reply location_case_studies)))
                      else None)
                else None)
         in \<lparr>general = selected_general, case_studies = selected_case_studies\<rparr>))"

section \<open>Properties of cosine similarity\<close>

lemma sum_squares_zero_iff:
  "sum_list (map (\<lambda>x. x * x) (a::real list)) = 0 \<longleftrightarrow> list_all (\<lambda>x. x = 0) a"
proof (induction a)
  case Nil
  show ?case by simp
next
  case (Cons x xs)
  have nn: "0 \<le> sum_list (map (\<lambda>x. x * x) xs)"
    by (rule sum_list_nonneg) auto
  have "x * x + sum_list (map (\<lambda>x. x * x) xs) = 0
          \<longleftrightarrow> x * x = 0 \<and> sum_list (map (\<lambda>x. x * x) xs) = 0"
    using nn by (simp add: add_nonneg_eq_0_iff)
  then show ?case using Cons.IH by simp
qed

lemma np_norm_zero_iff: "np_norm a = 0 \<longleftrightarrow> list_all (\<lambda>x. x = 0) a"
  by (simp add: np_norm_def sum_squares_zero_iff)

lemma dot_zero_left: "list_all (\<lambda>x. x = 0) a \<Longrightarrow> sum_list (map2 (*) a b) = (0::real)"
proof (induction a arbitrary: b)
  case Nil
  then show ?case by simp
next
  case (Cons x xs)
  then show ?case by (cases b) auto
qed

lemma dot_zero_right: "list_all (\<lambda>x. x = 0) b \<Longrightarrow> sum_list (map2 (*) a b) = (0::real)"
proof (induction b arbitrary: a)
  case Nil
  then show ?case by simp
next
  case (Cons x xs)
  then show ?case by (cases a) auto
qed

text \<open>
  C9, as the code has it. \<^verbatim>\<open>cosine_similarity\<close> has no guard against a zero divisor:
  for two vectors of one length of which one has only zero components, the product of
  the norms is zero, the division is \<open>0/0\<close>, and the result is NaN, not a real number.
  For two vectors of different lengths \<^verbatim>\<open>np.dot\<close> raises ValueError and the division
  is not reached, whatever their components.
\<close>

theorem cosine_similarity_zero_vector:
  "(length a = length b \<and> (list_all (\<lambda>x. x = 0) a \<or> list_all (\<lambda>x. x = 0) b)
      \<longrightarrow> np_norm a * np_norm b = 0 \<and> cosine_similarity a b = Inr NaN)
   \<and> (length c \<noteq> length d \<longrightarrow> cosine_similarity c d = Inl ValueError)"
  by (auto simp: cosine_similarity_def np_dot_def np_divide_def np_norm_zero_iff
        dot_zero_left dot_zero_right)

theorem cosine_similarity_zero_vector_witness:
  "np_norm [0, 0] * np_norm [1, 2] = 0
   \<and> cosine_similarity [0, 0] [1, 2] = Inr NaN
   \<and> cosine_similarity [0, 0] [0, 0, 0] = Inl ValueError"
  using cosine_similarity_zero_vector [of "[0, 0]" "[1, 2]" "[0, 0]" "[0, 0, 0]"] by simp

text \<open>
  C9 as stated fails: these two vectors have only zero components, and the call raises
  ValueError before any division.
\<close>

theorem zero_vectors_of_different_lengths:
  "list_all (\<lambda>x. x = 0) [0, 0 :: real]
   \<and> list_all (\<lambda>x. x = 0) [0, 0, 0 :: real]
   \<and> cosine_similarity [0, 0] [0, 0, 0] = Inl ValueError"
  by (simp add: cosine_similarity_def np_dot_def)

section \<open>Properties of the ranking\<close>

lemma score_loop_counter:
  "score_loop q client i as = Inr (scores, as', g) \<Longrightarrow> g = 0"
proof (induction as arbitrary: i scores as' g)
  case Nil
  then show ?case by simp
next
  case (Cons a as)
  then show ?case
    by (auto simp: get_article_embedding_def
          split: if_splits option.splits list.splits sum.splits prod.splits)
qed

lemma find_similar_articles_never_writes:
  "find_similar_articles query articles client top_k = Inr out \<Longrightarrow> written out = None"
  by (auto simp: find_similar_articles_def split: option.splits sum.splits
        dest: score_loop_counter)

text \<open>
  C1. A ranking call that computes a new embedding should write the article list back to
  the corpus snapshot file. Here the one article carries no embedding on entry and the
  embedding call succeeds: the call returns the article with its new vector and leaves
  the file unwritten.
\<close>

theorem new_embedding_not_written:
  "find_similar_articles ''transit''
     [\<lparr>url = ''https://ridewithvia.com/blog/a'', title = ''Microtransit'', content = [],
       description = [], atype = ''blog'', thumbnail = [], states = None,
       embedding = None\<rparr>]
     (\<lambda>i text. Some [1]) 25
   = Inr \<lparr>returned =
            [\<lparr>url = ''https://ridewithvia.com/blog/a'', title = ''Microtransit'', content = [],
              description = [], atype = ''blog'', thumbnail = [], states = None,
              embedding = Some [1]\<rparr>],
          corpus =
            [\<lparr>url = ''https://ridewithvia.com/blog/a'', title = ''Microtransit'', content = [],
              description = [], atype = ''blog'', thumbnail = [], states = None,
              embedding = Some [1]\<rparr>],
          written = None\<rparr>"
  by (simp add: find_similar_articles_def get_article_embedding_def embedding_text_def
        blank_def is_space_def cosine_similarity_def np_dot_def np_norm_def np_divide_def
        sort_reverse_def slice_to_def)

text \<open>
  C5. When the embedding call for the query fails, \<^verbatim>\<open>find_similar_articles\<close> raises
  nothing and returns the first \<open>top_k\<close> articles in corpus order; the articles are
  left as they were and no file is written.
\<close>

theorem query_embedding_failure_fallback:
  assumes "client 0 query = None" and "0 \<le> top_k"
  shows "find_similar_articles query articles client top_k
           = Inr \<lparr>returned = take (nat top_k) articles, corpus = articles, written = None\<rparr>"
  using assms by (simp add: find_similar_articles_def slice_to_def)

theorem query_embedding_failure_fallback_witness:
  "find_similar_articles ''fares''
     [\<lparr>url = ''u1'', title = ''First'', content = [], description = [], atype = ''page'',
       thumbnail = [], states = None, embedding = None\<rparr>,
      \<lparr>url = ''u2'', title = ''Second'', content = [], description = [], atype = ''page'',
       thumbnail = [], states = None, embedding = Some [1]\<rparr>]
     (\<lambda>i text. None) 1
   = Inr \<lparr>returned =
            [\<lparr>url = ''u1'', title = ''First'', content = [], description = [],
              atype = ''page'', thumbnail = [], states = None, embedding = None\<rparr>],
          corpus =
            [\<lparr>url = ''u1'', title = ''First'', content = [], description = [],
              atype = ''page'', thumbnail = [], states = None, embedding = None\<rparr>,
             \<lparr>url = ''u2'', title = ''Second'', content = [], description = [],
              atype = ''page'', thumbnail = [], states = None, embedding = Some [1]\<rparr>],
          written = None\<rparr>"
  using query_embedding_failure_fallback [of "\<lambda>i text. None" "''fares''" 1] by simp

subsection \<open>The sort\<close>

lemma float_lt_trans: "float_lt a b \<Longrightarrow> float_lt b c \<Longrightarrow> float_lt a c"
  by (cases a; cases b; cases c) auto


lemma float_lt_total: "a \<noteq> NaN \<Longrightarrow> b \<noteq> NaN \<Longrightarrow> float_lt a b \<or> a = b \<or> float_lt b a"
  by (cases a; cases b) auto

lemma mset_insort_desc: "mset (insort_desc x ys) = add_mset x (mset ys)"
  by (induction ys) auto

lemma set_insort_desc: "set (insort_desc x ys) = insert x (set ys)"
  by (induction ys) auto

lemma sort_reverse_Cons: "sort_reverse (x # xs) = insort_desc x (sort_reverse xs)"
  by (simp add: sort_reverse_def)

lemma sort_reverse_Nil: "sort_reverse [] = []"
  by (simp add: sort_reverse_def)

lemma mset_sort_reverse: "mset (sort_reverse xs) = mset xs"
  by (induction xs) (simp_all add: sort_reverse_Nil sort_reverse_Cons mset_insort_desc)

lemma set_sort_reverse: "set (sort_reverse xs) = set xs"
  using mset_sort_reverse [of xs] by (metis set_mset_mset)

lemma entry_before_step:
  assumes "entry_before y z" and "\<not> float_lt (fst x) (fst y)" and "snd x < snd z"
    and "fst x \<noteq> NaN" and "fst y \<noteq> NaN" and "fst z \<noteq> NaN"
  shows "entry_before x z"
proof -
  from assms(2,4,5) have xy: "float_lt (fst y) (fst x) \<or> fst x = fst y"
    using float_lt_total [of "fst x" "fst y"] by auto
  from assms(1) have yz: "float_lt (fst z) (fst y) \<or> fst y = fst z"
    by (auto simp: entry_before_def)
  from xy yz assms(3) show ?thesis
    by (auto simp: entry_before_def intro: float_lt_trans)
qed

lemma insort_desc_sorted:
  assumes "sorted_wrt entry_before ys"
    and "\<forall>y\<in>set ys. snd x < snd y"
    and "fst x \<noteq> NaN" and "\<forall>y\<in>set ys. fst y \<noteq> NaN"
  shows "sorted_wrt entry_before (insort_desc x ys)"
  using assms
proof (induction ys)
  case Nil
  then show ?case by simp
next
  case (Cons y ys)
  show ?case
  proof (cases "float_lt (fst x) (fst y)")
    case True
    have "entry_before y x"
      using True by (simp add: entry_before_def)
    moreover have "sorted_wrt entry_before (insort_desc x ys)"
      using Cons by simp
    ultimately show ?thesis
      using True Cons.prems(1) by (auto simp: set_insort_desc)
  next
    case False
    have xy: "entry_before x y"
      using False Cons.prems(2,3,4) float_lt_total [of "fst x" "fst y"]
      by (auto simp: entry_before_def)
    have "entry_before x z" if "z \<in> set ys" for z
    proof (rule entry_before_step [of y z x])
      show "entry_before y z" using Cons.prems(1) that by simp
      show "\<not> float_lt (fst x) (fst y)" by (rule False)
      show "snd x < snd z" using Cons.prems(2) that by simp
      show "fst x \<noteq> NaN" by (rule Cons.prems(3))
      show "fst y \<noteq> NaN" using Cons.prems(4) by simp
      show "fst z \<noteq> NaN" using Cons.prems(4) that by simp
    qed
    with xy show ?thesis
      using False Cons.prems(1) by auto
  qed
qed

lemma sort_reverse_sorted:
  assumes "sorted_wrt (<) (map snd xs)" and "\<forall>x\<in>set xs. fst x \<noteq> NaN"
  shows "sorted_wrt entry_before (sort_reverse xs)"
  using assms
proof (induction xs)
  case Nil
  then show ?case by (simp add: sort_reverse_Nil)
next
  case (Cons x xs)
  have "sorted_wrt entry_before (insort_desc x (sort_reverse xs))"
  proof (rule insort_desc_sorted)
    show "sorted_wrt entry_before (sort_reverse xs)" using Cons by simp
    show "\<forall>y\<in>set (sort_reverse xs). snd x < snd y"
      using Cons.prems(1) by (auto simp: set_sort_reverse)
    show "fst x \<noteq> NaN" using Cons.prems(2) by simp
    show "\<forall>y\<in>set (sort_reverse xs). fst y \<noteq> NaN"
      using Cons.prems(2) by (simp add: set_sort_reverse)
  qed
  then show ?case by (simp add: sort_reverse_Cons)
qed

lemma insort_desc_apsnd:
  "insort_desc (apsnd f x) (map (apsnd f) ys) = map (apsnd f) (insort_desc x ys)"
  by (induction ys) auto

lemma sort_reverse_apsnd: "sort_reverse (map (apsnd f) xs) = map (apsnd f) (sort_reverse xs)"
  by (induction xs) (simp_all add: sort_reverse_Nil sort_reverse_Cons insort_desc_apsnd)

lemma mset_rank_order: "mset (rank_order ss) = mset [0..<length ss]"
proof -
  have a: "mset (map snd (sort_reverse xs)) = mset (map snd xs)"
    for xs :: "(npfloat \<times> nat) list"
    by (metis mset_map mset_sort_reverse)
  have b: "map snd (zip ss [0..<length ss]) = [0..<length ss]"
    by simp
  show ?thesis
    unfolding rank_order_def using a [of "zip ss [0..<length ss]"] by (simp only: b)
qed

lemma set_rank_order: "set (rank_order ss) = {0..<length ss}"
  using mset_rank_order [of ss] by (metis set_mset_mset set_upt)

lemma distinct_rank_order: "distinct (rank_order ss)"
  using mset_rank_order [of ss] by (metis distinct_upt mset_eq_imp_distinct_iff)

lemma sort_reverse_zip:
  "sort_reverse (zip ss [0..<length ss]) = map (\<lambda>j. (ss ! j, j)) (rank_order ss)"
proof -
  have "x = (ss ! snd x, snd x)" if "x \<in> set (sort_reverse (zip ss [0..<length ss]))" for x
  proof -
    from that have "x \<in> set (zip ss [0..<length ss])"
      by (simp add: set_sort_reverse)
    then obtain n where "ss ! n = fst x" "[0..<length ss] ! n = snd x" "n < length ss"
      by (auto simp: in_set_zip)
    then show ?thesis by (cases x) auto
  qed
  then have "map (\<lambda>x. (ss ! snd x, snd x)) (sort_reverse (zip ss [0..<length ss]))
               = sort_reverse (zip ss [0..<length ss])"
    by (simp add: map_idI)
  then show ?thesis
    by (simp add: rank_order_def comp_def)
qed

lemma rank_order_sorted:
  assumes "comparable ss"
  shows "sorted_wrt (ranks_before ss) (rank_order ss)"
proof -
  have "sorted_wrt entry_before (sort_reverse (zip ss [0..<length ss]))"
  proof (rule sort_reverse_sorted)
    show "sorted_wrt (<) (map snd (zip ss [0..<length ss]))"
      by simp
    show "\<forall>x\<in>set (zip ss [0..<length ss]). fst x \<noteq> NaN"
      using assms by (auto simp: comparable_def list_all_iff dest: set_zip_leftD)
  qed
  then have "sorted_wrt entry_before (map (\<lambda>j. (ss ! j, j)) (rank_order ss))"
    by (simp add: sort_reverse_zip)
  moreover have "ranks_before ss = (\<lambda>i j. entry_before (ss ! i, i) (ss ! j, j))"
    by (intro ext) (simp add: ranks_before_def entry_before_def)
  ultimately show ?thesis
    by (simp add: sorted_wrt_map)
qed

lemma sort_reverse_scores:
  "sort_reverse scores = map (\<lambda>j. scores ! j) (rank_order (map fst scores))"
proof -
  let ?ss = "map fst scores"
  have "scores = map (apsnd (\<lambda>j. snd (scores ! j))) (zip ?ss [0..<length ?ss])"
    by (rule nth_equalityI) (auto simp: apsnd_def map_prod_def split: prod.splits)
  then have "sort_reverse scores
      = map (apsnd (\<lambda>j. snd (scores ! j))) (sort_reverse (zip ?ss [0..<length ?ss]))"
    by (metis sort_reverse_apsnd)
  also have "\<dots> = map (apsnd (\<lambda>j. snd (scores ! j)))
                     (map (\<lambda>j. (?ss ! j, j)) (rank_order ?ss))"
    by (simp only: sort_reverse_zip)
  also have "\<dots> = map (\<lambda>j. (?ss ! j, snd (scores ! j))) (rank_order ?ss)"
    by (simp add: comp_def)
  also have "\<dots> = map (\<lambda>j. scores ! j) (rank_order ?ss)"
    by (rule map_cong) (auto simp: set_rank_order)
  finally show ?thesis .
qed

subsection \<open>The scoring loop\<close>

lemma get_article_embedding_stores:
  "get_article_embedding a call True = (Some (v # vs), a') \<Longrightarrow> truthy (embedding a')"
  by (auto simp: get_article_embedding_def split: if_splits option.splits)

lemma score_loop_step:
  assumes "vector_score q (fst (get_article_embedding a (client (Suc i)) True)) = Inr s"
    and "score_loop q client (Suc i) as = Inr (scores, as', 0)"
  shows "score_loop q client i (a # as)
           = Inr ((s, snd (get_article_embedding a (client (Suc i)) True)) # scores,
                  snd (get_article_embedding a (client (Suc i)) True) # as', 0)"
proof (cases "get_article_embedding a (client (Suc i)) True")
  case (Pair emb a')
  show ?thesis
  proof (cases "\<exists>v vs. emb = Some (v # vs)")
    case True
    then obtain v vs where emb: "emb = Some (v # vs)" by blast
    have "truthy (embedding a')"
      using Pair emb by (auto dest: get_article_embedding_stores)
    moreover have "cosine_similarity q (v # vs) = Inr s"
      using assms(1) Pair emb by (simp add: vector_score_def)
    ultimately show ?thesis
      using Pair emb assms(2) by simp
  next
    case False
    then have "s = Num 0"
      using assms(1) Pair by (auto simp: vector_score_def split: option.splits list.splits)
    then show ?thesis
      using False Pair assms(2) by (auto split: option.splits list.splits)
  qed
qed

lemma score_loop_eq:
  assumes "map (\<lambda>(k, a). vector_score q (fst (get_article_embedding a (client (Suc k)) True)))
             (zip [i..<i + length as] as) = map Inr ss"
  shows "score_loop q client i as
           = Inr (zip ss (map (\<lambda>(k, a). snd (get_article_embedding a (client (Suc k)) True))
                            (zip [i..<i + length as] as)),
                  map (\<lambda>(k, a). snd (get_article_embedding a (client (Suc k)) True))
                    (zip [i..<i + length as] as), 0)"
  using assms
proof (induction as arbitrary: i ss)
  case Nil
  then show ?case by simp
next
  case (Cons a as)
  have upt: "[i..<i + length (a # as)] = i # [Suc i..<Suc i + length as]"
    using upt_conv_Cons [of i "Suc i + length as"] by simp
  from Cons.prems obtain s ss' where ss: "ss = s # ss'"
    and s: "vector_score q (fst (get_article_embedding a (client (Suc i)) True)) = Inr s"
    and rest: "map (\<lambda>(k, a). vector_score q (fst (get_article_embedding a (client (Suc k)) True)))
                 (zip [Suc i..<Suc i + length as] as) = map Inr ss'"
    unfolding upt by (cases ss) auto
  show ?case
    unfolding upt ss using score_loop_step [OF s Cons.IH [OF rest]]
    by (simp only: zip_Cons_Cons list.map prod.case)
qed

lemma map_zip_upt:
  "map (\<lambda>(k, a). f k a) (zip [0..<length as] as) = map (\<lambda>j. f j (as ! j)) [0..<length as]"
  by (rule nth_equalityI) auto

lemma scores_of_length: "scores_of q client articles ss \<Longrightarrow> length ss = length articles"
  unfolding scores_of_def by (metis length_map length_upt minus_nat.diff_0)

lemma score_loop_scores_of:
  assumes "scores_of q client articles ss"
  shows "score_loop q client 0 articles
           = Inr (zip ss (map (article_after client articles) [0..<length articles]),
                  map (article_after client articles) [0..<length articles], 0)"
proof -
  have a: "map (\<lambda>(k, a). vector_score q (fst (get_article_embedding a (client (Suc k)) True)))
             (zip [0..<0 + length articles] articles) = map Inr ss"
    using assms
    by (simp add: scores_of_def map_zip_upt article_score_def [abs_def] article_vector_def)
  have b: "map (\<lambda>(k, a). snd (get_article_embedding a (client (Suc k)) True))
             (zip [0..<0 + length articles] articles)
           = map (article_after client articles) [0..<length articles]"
    by (simp add: map_zip_upt article_after_def [abs_def])
  show ?thesis
    using score_loop_eq [OF a] unfolding b .
qed

lemma slice_to_map: "slice_to k (map f xs) = map f (slice_to k xs)"
  by (simp add: slice_to_def take_map)

lemma set_slice_to: "set (slice_to k xs) \<subseteq> set xs"
  by (auto simp: slice_to_def dest: in_set_takeD)

lemma find_similar_articles_ranked:
  assumes "client 0 query = Some q" and "scores_of q client articles ss"
  shows "find_similar_articles query articles client top_k
           = Inr \<lparr>returned = map (article_after client articles)
                               (slice_to top_k (rank_order ss)),
                  corpus = map (article_after client articles) [0..<length articles],
                  written = None\<rparr>"
proof -
  let ?after = "map (article_after client articles) [0..<length articles]"
  have len: "length ss = length articles"
    using assms(2) by (rule scores_of_length)
  have fst_zip: "map fst (zip ss ?after) = ss"
    using len by simp
  have "sort_reverse (zip ss ?after) = map (\<lambda>j. zip ss ?after ! j) (rank_order ss)"
    using sort_reverse_scores [of "zip ss ?after"] unfolding fst_zip .
  then have "map snd (slice_to top_k (sort_reverse (zip ss ?after)))
               = map (\<lambda>j. snd (zip ss ?after ! j)) (slice_to top_k (rank_order ss))"
    by (simp add: slice_to_map comp_def)
  also have "\<dots> = map (article_after client articles) (slice_to top_k (rank_order ss))"
  proof (rule map_cong [OF refl])
    fix j assume "j \<in> set (slice_to top_k (rank_order ss))"
    then have "j < length articles"
      using set_slice_to [of top_k "rank_order ss"] len by (auto simp: set_rank_order)
    then show "snd (zip ss ?after ! j) = article_after client articles j"
      using len by simp
  qed
  finally show ?thesis
    using assms(1) score_loop_scores_of [OF assms(2)]
    by (simp add: find_similar_articles_def)
qed

subsection \<open>Order of the result\<close>


lemma ranking_order:
  assumes "0 \<le> top_k" and "client 0 query = Some q"
    and "scores_of q client articles ss" and "comparable ss"
  shows "\<exists>out p. find_similar_articles query articles client top_k = Inr out
           \<and> returned out = map (article_after client articles) p
           \<and> length (returned out) \<le> nat top_k
           \<and> distinct p \<and> list_all (\<lambda>j. j < length articles) p
           \<and> sorted_wrt (ranks_before ss) p"
proof -
  let ?p = "take (nat top_k) (rank_order ss)"
  let ?out = "\<lparr>returned = map (article_after client articles) ?p,
               corpus = map (article_after client articles) [0..<length articles],
               written = None\<rparr>"
  have len: "length ss = length articles"
    using assms(3) by (rule scores_of_length)
  have p: "slice_to top_k (rank_order ss) = ?p"
    using assms(1) by (simp add: slice_to_def)
  have "find_similar_articles query articles client top_k = Inr ?out"
    using find_similar_articles_ranked [OF assms(2,3), of top_k] unfolding p .
  moreover have "returned ?out = map (article_after client articles) ?p"
    by simp
  moreover have "length (returned ?out) \<le> nat top_k"
    by simp
  moreover have "distinct ?p"
    by (rule distinct_take) (rule distinct_rank_order)
  moreover have "list_all (\<lambda>j. j < length articles) ?p"
    using len by (auto simp: list_all_iff set_rank_order dest: in_set_takeD)
  moreover have "sorted_wrt (ranks_before ss) ?p"
    by (rule sorted_wrt_take) (rule rank_order_sorted [OF assms(4)])
  ultimately show ?thesis by blast
qed

lemma find_similar_articles_length:
  assumes "0 \<le> top_k" and "find_similar_articles query articles client top_k = Inr out"
  shows "length (returned out) \<le> nat top_k"
proof (cases "client 0 query")
  case None
  then have "returned out = take (nat top_k) articles"
    using assms by (auto simp: find_similar_articles_def slice_to_def)
  then show ?thesis by simp
next
  case (Some q)
  then obtain scores as' g where "returned out = map snd (slice_to top_k (sort_reverse scores))"
    using assms(2)
    by (auto simp: find_similar_articles_def split: sum.splits prod.splits)
  then show ?thesis
    using assms(1) by (simp add: slice_to_def)
qed

text \<open>
  C4, as the code has it. For every query, every article list and every \<open>k \<ge> 0\<close>:
  whenever \<^verbatim>\<open>find_similar_articles\<close> returns, it returns at most \<open>k\<close> documents. When
  the embedding call for the query fails, they are the first \<open>k\<close> articles in corpus
  order, and no score is computed. When that call succeeds and every article's score is
  computed without an error (each vector has the length of the query's) and is not NaN
  (no vector has norm zero), the call returns the articles at distinct positions \<open>p\<close> of
  the input, in an order where each position ranks before every later one, by a higher
  score or by an equal score and an earlier place in the input.
\<close>

theorem ranking_top_k_sorted:
  assumes "0 \<le> top_k"
  shows "(find_similar_articles query articles client top_k = Inr out
            \<longrightarrow> length (returned out) \<le> nat top_k)
         \<and> (failing 0 query = None
            \<longrightarrow> find_similar_articles query articles failing top_k
                  = Inr \<lparr>returned = take (nat top_k) articles, corpus = articles,
                         written = None\<rparr>)
         \<and> (client 0 query = Some q \<and> scores_of q client articles ss \<and> comparable ss
            \<longrightarrow> (\<exists>res p. find_similar_articles query articles client top_k = Inr res
                   \<and> returned res = map (article_after client articles) p
                   \<and> length (returned res) \<le> nat top_k
                   \<and> distinct p \<and> list_all (\<lambda>j. j < length articles) p
                   \<and> sorted_wrt (ranks_before ss) p))"
proof (intro conjI impI)
  show "length (returned out) \<le> nat top_k"
    if "find_similar_articles query articles client top_k = Inr out"
    using assms that by (rule find_similar_articles_length)
  show "find_similar_articles query articles failing top_k
          = Inr \<lparr>returned = take (nat top_k) articles, corpus = articles, written = None\<rparr>"
    if "failing 0 query = None"
    using assms that by (simp add: find_similar_articles_def slice_to_def)
  show "\<exists>res p. find_similar_articles query articles client top_k = Inr res
           \<and> returned res = map (article_after client articles) p
           \<and> length (returned res) \<le> nat top_k
           \<and> distinct p \<and> list_all (\<lambda>j. j < length articles) p
           \<and> sorted_wrt (ranks_before ss) p"
    if h: "client 0 query = Some q \<and> scores_of q client articles ss \<and> comparable ss"
  proof (rule ranking_order [OF assms])
    show "client 0 query = Some q" using h by blast
    show "scores_of q client articles ss" using h by blast
    show "comparable ss" using h by blast
  qed
qed

theorem ranking_top_k_sorted_witness:
  "length (returned \<lparr>returned = [\<lparr>url = ''u2'', title = ''Second'', content = [], description = [], atype = ''page'',
         thumbnail = [], states = None, embedding = Some [1]\<rparr>], corpus = [\<lparr>url = ''u1'', title = ''First'', content = [], description = [], atype = ''page'',
         thumbnail = [], states = None, embedding = Some [- 1]\<rparr>,
        \<lparr>url = ''u2'', title = ''Second'', content = [], description = [], atype = ''page'',
         thumbnail = [], states = None, embedding = Some [1]\<rparr>], written = None\<rparr>) \<le> nat 1
   \<and> find_similar_articles ''fares'' [\<lparr>url = ''u1'', title = ''First'', content = [], description = [], atype = ''page'',
         thumbnail = [], states = None, embedding = Some [- 1]\<rparr>,
        \<lparr>url = ''u2'', title = ''Second'', content = [], description = [], atype = ''page'',
         thumbnail = [], states = None, embedding = Some [1]\<rparr>] (\<lambda>i text. None) 1
       = Inr \<lparr>returned = take (nat 1) [\<lparr>url = ''u1'', title = ''First'', content = [], description = [], atype = ''page'',
         thumbnail = [], states = None, embedding = Some [- 1]\<rparr>,
        \<lparr>url = ''u2'', title = ''Second'', content = [], description = [], atype = ''page'',
         thumbnail = [], states = None, embedding = Some [1]\<rparr>], corpus = [\<lparr>url = ''u1'', title = ''First'', content = [], description = [], atype = ''page'',
         thumbnail = [], states = None, embedding = Some [- 1]\<rparr>,
        \<lparr>url = ''u2'', title = ''Second'', content = [], description = [], atype = ''page'',
         thumbnail = [], states = None, embedding = Some [1]\<rparr>], written = None\<rparr>
   \<and> (\<exists>res p. find_similar_articles ''fares'' [\<lparr>url = ''u1'', title = ''First'', content = [], description = [], atype = ''page'',
         thumbnail = [], states = None, embedding = Some [- 1]\<rparr>,
        \<lparr>url = ''u2'', title = ''Second'', content = [], description = [], atype = ''page'',
         thumbnail = [], states = None, embedding = Some [1]\<rparr>] (\<lambda>i text. Some [1]) 1 = Inr res
         \<and> returned res = map (article_after (\<lambda>i text. Some [1]) [\<lparr>url = ''u1'', title = ''First'', content = [], description = [], atype = ''page'',
         thumbnail = [], states = None, embedding = Some [- 1]\<rparr>,
        \<lparr>url = ''u2'', title = ''Second'', content = [], description = [], atype = ''page'',
         thumbnail = [], states = None, embedding = Some [1]\<rparr>]) p
         \<and> length (returned res) \<le> nat 1
         \<and> distinct p
         \<and> list_all (\<lambda>j. j < length [\<lparr>url = ''u1'', title = ''First'', content = [], description = [], atype = ''page'',
         thumbnail = [], states = None, embedding = Some [- 1]\<rparr>,
        \<lparr>url = ''u2'', title = ''Second'', content = [], description = [], atype = ''page'',
         thumbnail = [], states = None, embedding = Some [1]\<rparr>]) p
         \<and> sorted_wrt (ranks_before [Num (- 1), Num 1]) p)"
proof -
  have h0: "(0::int) \<le> 1" by simp
  have h1: "find_similar_articles ''fares'' [\<lparr>url = ''u1'', title = ''First'', content = [], description = [], atype = ''page'',
         thumbnail = [], states = None, embedding = Some [- 1]\<rparr>,
        \<lparr>url = ''u2'', title = ''Second'', content = [], description = [], atype = ''page'',
         thumbnail = [], states = None, embedding = Some [1]\<rparr>] (\<lambda>i text. Some [1]) 1
              = Inr \<lparr>returned = [\<lparr>url = ''u2'', title = ''Second'', content = [], description = [], atype = ''page'',
         thumbnail = [], states = None, embedding = Some [1]\<rparr>], corpus = [\<lparr>url = ''u1'', title = ''First'', content = [], description = [], atype = ''page'',
         thumbnail = [], states = None, embedding = Some [- 1]\<rparr>,
        \<lparr>url = ''u2'', title = ''Second'', content = [], description = [], atype = ''page'',
         thumbnail = [], states = None, embedding = Some [1]\<rparr>], written = None\<rparr>"
    by (simp add: find_similar_articles_def get_article_embedding_def cosine_similarity_def
          np_dot_def np_norm_def np_divide_def sort_reverse_def slice_to_def)
  have h2: "(\<lambda>i text. None :: real list option) (0::nat) ''fares'' = None" by simp
  have h3: "(\<lambda>i text. Some [1]) (0::nat) ''fares'' = Some [1::real]
            \<and> scores_of [1] (\<lambda>i text. Some [1]) [\<lparr>url = ''u1'', title = ''First'', content = [], description = [], atype = ''page'',
         thumbnail = [], states = None, embedding = Some [- 1]\<rparr>,
        \<lparr>url = ''u2'', title = ''Second'', content = [], description = [], atype = ''page'',
         thumbnail = [], states = None, embedding = Some [1]\<rparr>] [Num (- 1), Num 1]
            \<and> comparable [Num (- 1), Num 1]"
    by (simp add: scores_of_def article_score_def article_vector_def vector_score_def
          get_article_embedding_def cosine_similarity_def np_dot_def np_norm_def
          np_divide_def comparable_def upt_rec)
  note T = ranking_top_k_sorted [OF h0]
  have c1: "length (returned \<lparr>returned = [\<lparr>url = ''u2'', title = ''Second'', content = [], description = [], atype = ''page'',
         thumbnail = [], states = None, embedding = Some [1]\<rparr>], corpus = [\<lparr>url = ''u1'', title = ''First'', content = [], description = [], atype = ''page'',
         thumbnail = [], states = None, embedding = Some [- 1]\<rparr>,
        \<lparr>url = ''u2'', title = ''Second'', content = [], description = [], atype = ''page'',
         thumbnail = [], states = None, embedding = Some [1]\<rparr>], written = None\<rparr>) \<le> nat 1"
    using T [THEN conjunct1, THEN mp, OF h1] .
  have c2: "find_similar_articles ''fares'' [\<lparr>url = ''u1'', title = ''First'', content = [], description = [], atype = ''page'',
         thumbnail = [], states = None, embedding = Some [- 1]\<rparr>,
        \<lparr>url = ''u2'', title = ''Second'', content = [], description = [], atype = ''page'',
         thumbnail = [], states = None, embedding = Some [1]\<rparr>] (\<lambda>i text. None) 1
              = Inr \<lparr>returned = take (nat 1) [\<lparr>url = ''u1'', title = ''First'', content = [], description = [], atype = ''page'',
         thumbnail = [], states = None, embedding = Some [- 1]\<rparr>,
        \<lparr>url = ''u2'', title = ''Second'', content = [], description = [], atype = ''page'',
         thumbnail = [], states = None, embedding = Some [1]\<rparr>], corpus = [\<lparr>url = ''u1'', title = ''First'', content = [], description = [], atype = ''page'',
         thumbnail = [], states = None, embedding = Some [- 1]\<rparr>,
        \<lparr>url = ''u2'', title = ''Second'', content = [], description = [], atype = ''page'',
         thumbnail = [], states = None, embedding = Some [1]\<rparr>], written = None\<rparr>"
    using T [THEN conjunct2, THEN conjunct1, THEN mp, OF h2] .
  have c3: "\<exists>res p. find_similar_articles ''fares'' [\<lparr>url = ''u1'', title = ''First'', content = [], description = [], atype = ''page'',
         thumbnail = [], states = None, embedding = Some [- 1]\<rparr>,
        \<lparr>url = ''u2'', title = ''Second'', content = [], description = [], atype = ''page'',
         thumbnail = [], states = None, embedding = Some [1]\<rparr>] (\<lambda>i text. Some [1]) 1 = Inr res
         \<and> returned res = map (article_after (\<lambda>i text. Some [1]) [\<lparr>url = ''u1'', title = ''First'', content = [], description = [], atype = ''page'',
         thumbnail = [], states = None, embedding = Some [- 1]\<rparr>,
        \<lparr>url = ''u2'', title = ''Second'', content = [], description = [], atype = ''page'',
         thumbnail = [], states = None, embedding = Some [1]\<rparr>]) p
         \<and> length (returned res) \<le> nat 1
         \<and> distinct p
         \<and> list_all (\<lambda>j. j < length [\<lparr>url = ''u1'', title = ''First'', content = [], description = [], atype = ''page'',
         thumbnail = [], states = None, embedding = Some [- 1]\<rparr>,
        \<lparr>url = ''u2'', title = ''Second'', content = [], description = [], atype = ''page'',
         thumbnail = [], states = None, embedding = Some [1]\<rparr>]) p
         \<and> sorted_wrt (ranks_before [Num (- 1), Num 1]) p"
    using T [THEN conjunct2, THEN conjunct2, THEN mp, OF h3] .
  from c1 c2 c3 show ?thesis by (intro conjI)
qed

text \<open>
  C4 as stated fails, in two ways. With a stored vector of length 2 and a query vector
  of length 1, \<^verbatim>\<open>np.dot\<close> raises ValueError, nothing catches it, and the call returns no
  list. With a stored zero vector the score is NaN, every comparison with it is false,
  the sort finds no pair out of order and leaves the list as it is: the scores of the
  result are \<open>-1\<close>, NaN, \<open>1\<close>.
\<close>

theorem ranking_raises_or_unordered:
  "find_similar_articles ''fares''
     [\<lparr>url = ''u1'', title = ''First'', content = [], description = [], atype = ''page'',
       thumbnail = [], states = None, embedding = Some [1, 2]\<rparr>]
     (\<lambda>i text. Some [1]) 5 = Inl ValueError
   \<and> find_similar_articles ''fares''
     [\<lparr>url = ''u1'', title = ''First'', content = [], description = [], atype = ''page'',
       thumbnail = [], states = None, embedding = Some [- 1]\<rparr>,
      \<lparr>url = ''u2'', title = ''Second'', content = [], description = [], atype = ''page'',
       thumbnail = [], states = None, embedding = Some [0]\<rparr>,
      \<lparr>url = ''u3'', title = ''Third'', content = [], description = [], atype = ''page'',
       thumbnail = [], states = None, embedding = Some [1]\<rparr>]
     (\<lambda>i text. Some [1]) 5
     = Inr \<lparr>returned =
         [\<lparr>url = ''u1'', title = ''First'', content = [], description = [], atype = ''page'',
           thumbnail = [], states = None, embedding = Some [- 1]\<rparr>,
          \<lparr>url = ''u2'', title = ''Second'', content = [], description = [], atype = ''page'',
           thumbnail = [], states = None, embedding = Some [0]\<rparr>,
          \<lparr>url = ''u3'', title = ''Third'', content = [], description = [], atype = ''page'',
           thumbnail = [], states = None, embedding = Some [1]\<rparr>],
        corpus =
         [\<lparr>url = ''u1'', title = ''First'', content = [], description = [], atype = ''page'',
           thumbnail = [], states = None, embedding = Some [- 1]\<rparr>,
          \<lparr>url = ''u2'', title = ''Second'', content = [], description = [], atype = ''page'',
           thumbnail = [], states = None, embedding = Some [0]\<rparr>,
          \<lparr>url = ''u3'', title = ''Third'', content = [], description = [], atype = ''page'',
           thumbnail = [], states = None, embedding = Some [1]\<rparr>],
        written = None\<rparr>
   \<and> cosine_similarity [1] [- 1] = Inr (Num (- 1))
   \<and> cosine_similarity [1] [0] = Inr NaN
   \<and> cosine_similarity [1] [1] = Inr (Num 1)"
  by (simp add: find_similar_articles_def get_article_embedding_def cosine_similarity_def
        np_dot_def np_norm_def np_divide_def sort_reverse_def slice_to_def)




section \<open>Properties of link discovery\<close>

text \<open>
  C3. A link to another host should be discarded. The filter tests whether the text
  \<^verbatim>\<open>ridewithvia.com\<close> occurs anywhere in the URL, so this link to the host
  \<^verbatim>\<open>evil.example\<close> is put on the frontier and made an article.
\<close>

theorem offsite_link_enqueued:
  "process_link urljoin None \<lparr>urls_to_visit = [], seen_urls = {}, articles_found = []\<rparr>
     \<lparr>link_href = ''https://evil.example/blog/ridewithvia.com'',
      link_text = ''Read our story'', link_title = [], link_aria_label = []\<rparr>
   = \<lparr>urls_to_visit = [''https://evil.example/blog/ridewithvia.com''],
      seen_urls = {''https://evil.example/blog/ridewithvia.com''},
      articles_found =
        [\<lparr>url = ''https://evil.example/blog/ridewithvia.com'', title = ''Read our story'',
          content = [], description = [], atype = ''blog'', thumbnail = [],
          states = None, embedding = None\<rparr>]\<rparr>
   \<and> netloc ''https://evil.example/blog/ridewithvia.com'' = ''evil.example''
   \<and> netloc WEBSITE_URL = ''ridewithvia.com''"
  by (simp add: process_link_def normalize_href_def content_path_def extract_title_def
        new_article_def article_type_def netloc_def WEBSITE_URL_def)

lemma process_link_types:
  assumes "list_all (\<lambda>a. atype a = article_type (url a)) (articles_found st)"
  shows "list_all (\<lambda>a. atype a = article_type (url a))
           (articles_found (process_link urljoin page_title st link))"
  using assms by (simp add: process_link_def new_article_def Let_def split: option.splits)

text \<open>
  C6, as the code has it. The type of a discovered document is computed from its URL
  alone, by the first match in the order blog, resources, case-studies, solutions,
  audience: a URL that contains \<^verbatim>\<open>/blog/\<close> is typed blog; otherwise one that contains
  \<^verbatim>\<open>/resources/\<close> is typed resource; otherwise one that contains \<^verbatim>\<open>/case-studies/\<close> is
  typed case-study; otherwise one that contains \<^verbatim>\<open>/solutions/\<close> is typed solution;
  otherwise one that contains \<^verbatim>\<open>/audience/\<close> is typed audience; one that contains none
  of the five segments is typed page. Every article that the link loop adds carries the
  type so computed from its own URL.
\<close>

theorem article_type_first_match:
  "(str_in ''/blog/'' u \<longrightarrow> article_type u = ''blog'')
   \<and> (\<not> str_in ''/blog/'' r \<and> str_in ''/resources/'' r \<longrightarrow> article_type r = ''resource'')
   \<and> (\<not> str_in ''/blog/'' v \<and> \<not> str_in ''/resources/'' v \<and> str_in ''/case-studies/'' v
        \<longrightarrow> article_type v = ''case-study'')
   \<and> (\<not> str_in ''/blog/'' s \<and> \<not> str_in ''/resources/'' s \<and> \<not> str_in ''/case-studies/'' s
        \<and> str_in ''/solutions/'' s
        \<longrightarrow> article_type s = ''solution'')
   \<and> (\<not> str_in ''/blog/'' t \<and> \<not> str_in ''/resources/'' t \<and> \<not> str_in ''/case-studies/'' t
        \<and> \<not> str_in ''/solutions/'' t \<and> str_in ''/audience/'' t
        \<longrightarrow> article_type t = ''audience'')
   \<and> (\<not> str_in ''/blog/'' w \<and> \<not> str_in ''/resources/'' w \<and> \<not> str_in ''/case-studies/'' w
        \<and> \<not> str_in ''/solutions/'' w \<and> \<not> str_in ''/audience/'' w
        \<longrightarrow> article_type w = ''page'')
   \<and> (list_all (\<lambda>a. atype a = article_type (url a)) (articles_found st)
        \<longrightarrow> list_all (\<lambda>a. atype a = article_type (url a))
              (articles_found (process_link urljoin page_title st link)))"
proof (intro conjI impI)
  show "article_type u = ''blog''" if "str_in ''/blog/'' u"
    using that by (simp add: article_type_def)
  show "article_type r = ''resource''"
    if "\<not> str_in ''/blog/'' r \<and> str_in ''/resources/'' r"
    using that by (simp add: article_type_def)
  show "article_type v = ''case-study''"
    if "\<not> str_in ''/blog/'' v \<and> \<not> str_in ''/resources/'' v \<and> str_in ''/case-studies/'' v"
    using that by (simp add: article_type_def)
  show "article_type s = ''solution''"
    if "\<not> str_in ''/blog/'' s \<and> \<not> str_in ''/resources/'' s \<and> \<not> str_in ''/case-studies/'' s
        \<and> str_in ''/solutions/'' s"
    using that by (simp add: article_type_def)
  show "article_type t = ''audience''"
    if "\<not> str_in ''/blog/'' t \<and> \<not> str_in ''/resources/'' t \<and> \<not> str_in ''/case-studies/'' t
        \<and> \<not> str_in ''/solutions/'' t \<and> str_in ''/audience/'' t"
    using that by (simp add: article_type_def)
  show "article_type w = ''page''"
    if "\<not> str_in ''/blog/'' w \<and> \<not> str_in ''/resources/'' w \<and> \<not> str_in ''/case-studies/'' w
        \<and> \<not> str_in ''/solutions/'' w \<and> \<not> str_in ''/audience/'' w"
    using that by (simp add: article_type_def)
  show "list_all (\<lambda>a. atype a = article_type (url a))
          (articles_found (process_link urljoin page_title st link))"
    if "list_all (\<lambda>a. atype a = article_type (url a)) (articles_found st)"
    using that by (rule process_link_types)
qed

theorem article_type_first_match_witness:
  "article_type ''https://ridewithvia.com/blog/on-demand'' = ''blog''
   \<and> article_type ''https://ridewithvia.com/resources/case-studies/arlington'' = ''resource''
   \<and> article_type ''https://ridewithvia.com/case-studies/arlington'' = ''case-study''
   \<and> article_type ''https://ridewithvia.com/solutions/audience/cities'' = ''solution''
   \<and> article_type ''https://ridewithvia.com/audience/cities'' = ''audience''
   \<and> article_type ''https://ridewithvia.com/about/team'' = ''page''
   \<and> list_all (\<lambda>a. atype a = article_type (url a))
       (articles_found (process_link (\<lambda>base href. base @ href) None
          \<lparr>urls_to_visit = [], seen_urls = {}, articles_found = []\<rparr>
          \<lparr>link_href = ''/about/team'', link_text = ''Meet the team'', link_title = [],
           link_aria_label = []\<rparr>))"
  using article_type_first_match
    [of "''https://ridewithvia.com/blog/on-demand''"
        "''https://ridewithvia.com/resources/case-studies/arlington''"
        "''https://ridewithvia.com/case-studies/arlington''"
        "''https://ridewithvia.com/solutions/audience/cities''"
        "''https://ridewithvia.com/audience/cities''"
        "''https://ridewithvia.com/about/team''"
        "\<lparr>urls_to_visit = [], seen_urls = {}, articles_found = []\<rparr>"
        "\<lambda>base href. base @ href" None
        "\<lparr>link_href = ''/about/team'', link_text = ''Meet the team'', link_title = [],
          link_aria_label = []\<rparr>"]
  by simp

text \<open>
  C6 as stated fails: this URL contains \<^verbatim>\<open>/case-studies/\<close> and is typed resource,
  because \<^verbatim>\<open>/resources/\<close> is tested first.
\<close>

theorem case_studies_under_resources:
  "str_in ''/case-studies/'' ''https://ridewithvia.com/resources/case-studies/arlington''
   \<and> article_type ''https://ridewithvia.com/resources/case-studies/arlington'' = ''resource''"
  by (simp add: article_type_def)

section \<open>Properties of the recommender\<close>

text \<open>
  C7, as the code has it. On an empty corpus \<^verbatim>\<open>recommend_articles\<close> raises nothing and
  returns an empty general list and an empty case-study list (a list, not \<^verbatim>\<open>None\<close>).
\<close>

theorem recommend_articles_empty:
  "recommend_articles [] user_type user_state chat draw
     = \<lparr>general = [], case_studies = Some []\<rparr>"
  by (simp add: recommend_articles_def)

text \<open>C7 as stated fails: the case-study component of that result is not \<^verbatim>\<open>None\<close>.\<close>

theorem recommend_articles_empty_not_none:
  "case_studies (recommend_articles [] ''city'' ''CA'' (\<lambda>i. None) (\<lambda>i. 0)) \<noteq> None"
  by (simp add: recommend_articles_def)

subsection \<open>The geographic filter\<close>






text \<open>
  C10. For a \<open>user_state\<close> that is not a key of \<^verbatim>\<open>STATE_COORDINATES\<close>,
  \<^verbatim>\<open>get_articles_by_location\<close> returns its input list as it is, for every list and every
  distance bound.
\<close>

theorem unknown_state_returns_input:
  assumes "map_of STATE_COORDINATES user_state = None"
  shows "get_articles_by_location draw articles user_state max_distance = articles"
  using assms by (simp add: get_articles_by_location_def)

theorem unknown_state_returns_input_witness:
  "map_of STATE_COORDINATES ''ZZ'' = None
   \<and> get_articles_by_location (\<lambda>i. 0)
       (replicate 12
          \<lparr>url = ''u'', title = ''Tagged'', content = [], description = [], atype = ''page'',
           thumbnail = [], states = Some [''ME''], embedding = None\<rparr>) ''ZZ'' 500
     = replicate 12
         \<lparr>url = ''u'', title = ''Tagged'', content = [], description = [], atype = ''page'',
          thumbnail = [], states = Some [''ME''], embedding = None\<rparr>"
proof -
  have h: "map_of STATE_COORDINATES ''ZZ'' = None"
    by (simp add: STATE_COORDINATES_def)
  show ?thesis
    using h unknown_state_returns_input [OF h] by simp
qed

end
